theory Spec2Isabelle
  imports Complex_Main
begin

section \<open>Slide handles and the Clones component\<close>

text \<open>
  Source: \<^verbatim>\<open>components/Slides/Slide.ts\<close> (the handle) and
  \<^verbatim>\<open>components/Clones/Clones.ts\<close> (\<^verbatim>\<open>generate\<close>, \<^verbatim>\<open>init\<close>,
  \<^verbatim>\<open>computeCloneCount\<close>).

  A DOM element is identified by where it comes from: the \<open>i\<close>-th original slide
  element, or the deep copy that \<^verbatim>\<open>cloneDeep( elm, index )\<close> makes of an element;
  the number kept with a copy is the sequence number of its id,
  \<^verbatim>\<open>`${ root.id }-clone${ pad( index + 1 ) }`\<close>.
\<close>

datatype element = Original nat | Cloned element int

text \<open>
  \<^verbatim>\<open>Slide( Splide, index, slideIndex, slide )\<close>: the fields of the handle that the
  Clones and Layout components read. \<^verbatim>\<open>isClone = slideIndex > -1\<close>.
\<close>

record SlideComponent =
  sc_index :: int
  sc_slideIndex :: int
  sc_slide :: element

definition Slide :: "int \<Rightarrow> int \<Rightarrow> element \<Rightarrow> SlideComponent" where
  "Slide index slideIndex slide =
     \<lparr>sc_index = index, sc_slideIndex = slideIndex, sc_slide = slide\<rparr>"

definition isClone :: "SlideComponent \<Rightarrow> bool" where
  "isClone S = (sc_slideIndex S > - 1)"

text \<open>
  What the Clones component reads and writes: the handles of the Slides component, the
  children of \<^verbatim>\<open>Elements.list\<close> in document order, its own \<^verbatim>\<open>clones\<close> array and
  \<^verbatim>\<open>cloneCount\<close>, and the events it has emitted.
\<close>

record clones_state =
  registry :: "SlideComponent list"
  list_children :: "element list"
  clones :: "element list"
  cloneCount :: int
  emitted :: "string list"

definition EVENT_RESIZE :: string where "EVENT_RESIZE = ''resize''"
definition EVENT_REFRESH :: string where "EVENT_REFRESH = ''refresh''"
definition LOOP :: string where "LOOP = ''loop''"
definition FADE :: string where "FADE = ''fade''"

text \<open>
  The DOM helpers of \<^verbatim>\<open>utils/dom\<close>: \<^verbatim>\<open>before( node, ref )\<close> inserts \<open>node\<close>
  in front of \<open>ref\<close> among the children of the parent of \<open>ref\<close>,
  \<^verbatim>\<open>append( parent, child )\<close> adds \<open>child\<close> as the last child.
\<close>

fun before :: "element \<Rightarrow> element \<Rightarrow> element list \<Rightarrow> element list" where
  "before node ref [] = []"
| "before node ref (c # cs) = (if c = ref then node # c # cs else c # before node ref cs)"

definition append_child :: "element list \<Rightarrow> element \<Rightarrow> element list" where
  "append_child children child = children @ [child]"

text \<open>
  \<^verbatim>\<open>Array.prototype.slice( start, end )\<close>: a negative bound counts from the end, both
  bounds are clamped to the array, and a missing \<open>end\<close> is the length.
\<close>

definition js_slice :: "'a list \<Rightarrow> int \<Rightarrow> int option \<Rightarrow> 'a list" where
  "js_slice xs start end =
     (let n = int (length xs);
          k = (if start < 0 then max (n + start) 0 else min start n);
          e = (case end of None \<Rightarrow> n | Some j \<Rightarrow> j);
          f = (if e < 0 then max (n + e) 0 else min e n)
      in take (nat (f - k)) (drop (nat k) xs))"

text \<open>
  The loop \<^verbatim>\<open>while ( slides.length < count ) { push( slides, slides ); }\<close>. It is
  only reached under \<^verbatim>\<open>if ( length )\<close>; the test that the array is not empty is
  kept in the loop condition, which is what makes the loop end.
\<close>

function repeat_slides :: "int \<Rightarrow> 'a list \<Rightarrow> 'a list" where
  "repeat_slides count slides =
     (if slides \<noteq> [] \<and> int (length slides) < count
      then repeat_slides count (slides @ slides) else slides)"
  by pat_completeness auto
termination
  by (relation "measure (\<lambda>(count, slides). nat (count - int (length slides)))") auto

definition cloneDeep :: "element \<Rightarrow> int \<Rightarrow> element" where
  "cloneDeep elm index = Cloned elm (index + 1)"

text \<open>
  Modelled from the spec: \<^verbatim>\<open>Slides.register\<close> of the Slides component, which is not
  among the sources. Section 4.4: \<^verbatim>\<open>register(element, placementIndex, realIndexIfClone)\<close>
  adds a handle.
\<close>

definition register :: "element \<Rightarrow> int \<Rightarrow> int \<Rightarrow> clones_state \<Rightarrow> clones_state" where
  "register slide index slideIndex st =
     st\<lparr>registry := registry st @ [Slide index slideIndex slide]\<rparr>"

text \<open>
  The callback of \<^verbatim>\<open>forEach\<close> in \<^verbatim>\<open>generate\<close>; \<open>len\<close> is the \<^verbatim>\<open>length\<close> read
  before the array was repeated and \<open>first\<close> is \<^verbatim>\<open>slides[ 0 ].slide\<close>.
\<close>

definition clone_slide ::
  "int \<Rightarrow> nat \<Rightarrow> element \<Rightarrow> SlideComponent \<Rightarrow> int \<Rightarrow> clones_state \<Rightarrow> clones_state" where
  "clone_slide count len first S index st =
     (let isHead = index < count;
          clone = cloneDeep (sc_slide S) index;
          st1 = st\<lparr>list_children :=
                     (if isHead then before clone first (list_children st)
                      else append_child (list_children st) clone)\<rparr>;
          st2 = st1\<lparr>clones := clones st1 @ [clone]\<rparr>
      in register clone (index - count + (if isHead then 0 else int len)) (sc_index S) st2)"

fun forEach_from :: "('a \<Rightarrow> int \<Rightarrow> 's \<Rightarrow> 's) \<Rightarrow> 'a list \<Rightarrow> int \<Rightarrow> 's \<Rightarrow> 's" where
  "forEach_from f [] i st = st"
| "forEach_from f (x # xs) i st = forEach_from f xs (i + 1) (f x i st)"

definition generate :: "int \<Rightarrow> clones_state \<Rightarrow> clones_state" where
  "generate count st =
     (let slides = registry st; len = length slides in
      if len \<noteq> 0 then
        let slides' = repeat_slides count slides in
        forEach_from (clone_slide count len (sc_slide (hd slides')))
          (js_slice slides' (- count) None @ js_slice slides' 0 (Some count)) 0 st
      else st)"

text \<open>
  The options and measurements that \<^verbatim>\<open>computeCloneCount\<close> reads. An option that may
  be \<^verbatim>\<open>undefined\<close> is an \<open>option\<close>; a number is falsy when it is undefined or
  zero. \<open>fixedSize\<close> is the value of
  \<^verbatim>\<open>measure( Elements.list, options[ resolve( 'fixedWidth' ) ] )\<close> (undefined when the
  option is not set) and \<open>realLength\<close> is \<^verbatim>\<open>Splide.length\<close>.

  JavaScript numbers are IEEE doubles, and the quotient
  \<^verbatim>\<open>rect( Elements.track )[ resolve( 'width' ) ] / fixedSize\<close> is a rounded double
  division, not an exact one. It is not recomputed here: \<open>trackQuotient\<close> is the double
  that this division yields, read only when \<open>fixedSize\<close> is truthy. A finite double is
  a rational number and \<^verbatim>\<open>Math.ceil\<close> of it is its exact ceiling. The counts
  (\<^verbatim>\<open>clones\<close>, \<^verbatim>\<open>perPage\<close>, \<^verbatim>\<open>flickMaxPages\<close>) are integers, on which the
  products below are exact.
\<close>

record clone_options =
  opt_type :: string
  opt_clones :: "int option"
  opt_autoWidth :: bool
  opt_perPage :: int
  opt_drag :: bool
  opt_flickMaxPages :: "int option"

record clone_measures =
  fixedSize :: "rat option"
  trackQuotient :: rat
  realLength :: nat

definition fixedCount :: "clone_measures \<Rightarrow> int" where
  "fixedCount m =
     (case fixedSize m of None \<Rightarrow> 0
      | Some fs \<Rightarrow> if fs = 0 then 0 else \<lceil>trackQuotient m\<rceil>)"

definition baseCount :: "clone_options \<Rightarrow> clone_measures \<Rightarrow> int" where
  "baseCount opts m =
     (if fixedCount m \<noteq> 0 then fixedCount m
      else if opt_autoWidth opts \<and> realLength m \<noteq> 0 then int (realLength m)
      else opt_perPage opts)"

text \<open>The factor \<^verbatim>\<open>options.drag ? ( options.flickMaxPages || 1 ) + 1 : 2\<close>.\<close>

definition safety_factor :: "clone_options \<Rightarrow> int" where
  "safety_factor opts =
     (if opt_drag opts
      then (case opt_flickMaxPages opts of None \<Rightarrow> 1 | Some p \<Rightarrow> if p = 0 then 1 else p) + 1
      else 2)"

definition computeCloneCount :: "clone_options \<Rightarrow> clone_measures \<Rightarrow> int" where
  "computeCloneCount opts m =
     (if opt_type opts \<noteq> LOOP then 0
      else (case opt_clones opts of
              None \<Rightarrow> baseCount opts m * safety_factor opts
            | Some c \<Rightarrow> if c = 0 then baseCount opts m * safety_factor opts else c))"

definition emit_resize :: "clones_state \<Rightarrow> clones_state" where
  "emit_resize st = st\<lparr>emitted := emitted st @ [EVENT_RESIZE]\<rparr>"

definition init :: "clone_options \<Rightarrow> clone_measures \<Rightarrow> clones_state \<Rightarrow> clones_state" where
  "init opts m st =
     (let st1 = st\<lparr>cloneCount := computeCloneCount opts m\<rparr> in
      if cloneCount st1 \<noteq> 0 then emit_resize (generate (cloneCount st1) st1) else st1)"

text \<open>
  Modelled from the spec: \<^verbatim>\<open>Slides.getLength\<close> of the Slides component, which is not
  among the sources. Section 4.4: \<^verbatim>\<open>getLength(excludeClones)\<close> returns the real
  count when the flag is true.
\<close>

definition getLength :: "bool \<Rightarrow> SlideComponent list \<Rightarrow> nat" where
  "getLength excludeClones handles =
     (if excludeClones then length (filter (\<lambda>S. \<not> isClone S) handles) else length handles)"

text \<open>The handles of \<open>n\<close> real slides, as the Slides component registers them.\<close>

definition real_slides :: "nat \<Rightarrow> SlideComponent list" where
  "real_slides n = map (\<lambda>i. Slide (int i) (- 1) (Original i)) [0..<n]"

text \<open>
  The handles that \<^verbatim>\<open>generate\<close> registers for a batch of source handles, written
  as a list: the \<open>i\<close>-th element of the batch gives one handle.
\<close>

fun clone_handles :: "int \<Rightarrow> nat \<Rightarrow> SlideComponent list \<Rightarrow> int \<Rightarrow> SlideComponent list" where
  "clone_handles c len [] i = []"
| "clone_handles c len (S # xs) i =
     Slide (i - c + (if i < c then 0 else int len)) (sc_index S) (cloneDeep (sc_slide S) i)
       # clone_handles c len xs (i + 1)"


text \<open>
  Concrete sliders used as examples. In \<open>hidden_fixed_measures\<close> the track measures 0
  and the fixed size is 100: the quotient \<open>0 / 100\<close> is 0. In \<open>wide_measures\<close> the track
  measures 250 and the fixed size is 100: the quotient is the double 2.5.
\<close>

definition two_slides :: clones_state where
  "two_slides = \<lparr>registry = real_slides 2, list_children = map Original [0..<2],
     clones = [], cloneCount = 0, emitted = []\<rparr>"



definition slide_opts :: clone_options where
  "slide_opts = \<lparr>opt_type = ''slide'', opt_clones = Some 4, opt_autoWidth = False,
     opt_perPage = 3, opt_drag = True, opt_flickMaxPages = None\<rparr>"

definition wide_measures :: clone_measures where
  "wide_measures = \<lparr>fixedSize = Some 100, trackQuotient = 5 / 2, realLength = 2\<rparr>"


section \<open>Properties of the Clones component\<close>

declare repeat_slides.simps [simp del]

lemma repeat_slides_set: "set (repeat_slides c xs) = set xs"
  by (induction c xs rule: repeat_slides.induct) (subst repeat_slides.simps, auto)

lemma repeat_slides_length: "xs \<noteq> [] \<Longrightarrow> c \<le> int (length (repeat_slides c xs))"
  by (induction c xs rule: repeat_slides.induct) (subst repeat_slides.simps, auto)

lemma repeat_slides_hd: "hd (repeat_slides c xs) = hd xs"
  by (induction c xs rule: repeat_slides.induct) (subst repeat_slides.simps, auto)

lemma forEach_from_append:
  "forEach_from f (xs @ ys) i st = forEach_from f ys (i + int (length xs)) (forEach_from f xs i st)"
  by (induction xs arbitrary: i st) (auto simp: algebra_simps)

lemma registry_forEach:
  "registry (forEach_from (clone_slide c len first) xs i st) = registry st @ clone_handles c len xs i"
  by (induction xs arbitrary: i st) (auto simp: clone_slide_def register_def Let_def)

lemma clones_forEach:
  "clones (forEach_from (clone_slide c len first) xs i st) = clones st @ map sc_slide (clone_handles c len xs i)"
  by (induction xs arbitrary: i st) (auto simp: clone_slide_def register_def Let_def Slide_def)

lemma length_clone_handles: "length (clone_handles c len xs i) = length xs"
  by (induction xs arbitrary: i) auto

lemma before_insert:
  "ref \<notin> set pre \<Longrightarrow> before node ref (pre @ ref # rest) = pre @ node # ref # rest"
  by (induction pre) auto

lemma is_Cloned_handles: "e \<in> set (map sc_slide (clone_handles c len xs i)) \<Longrightarrow> \<exists>a b. e = Cloned a b"
  by (induction xs arbitrary: i) (auto simp: Slide_def cloneDeep_def)

lemma children_head:
  "i + int (length xs) \<le> c \<Longrightarrow> list_children st = pre @ Original j # rest \<Longrightarrow> Original j \<notin> set pre \<Longrightarrow>
   list_children (forEach_from (clone_slide c len (Original j)) xs i st) =
     pre @ map sc_slide (clone_handles c len xs i) @ Original j # rest"
proof (induction xs arbitrary: i st pre)
  case Nil
  then show ?case by simp
next
  case (Cons S xs)
  let ?cl = "cloneDeep (sc_slide S) i"
  let ?st = "clone_slide c len (Original j) S i st"
  have i: "i < c" using Cons.prems by simp
  have ch: "list_children ?st = (pre @ [?cl]) @ Original j # rest"
    using Cons.prems i by (simp add: clone_slide_def register_def Let_def before_insert)
  have notin: "Original j \<notin> set (pre @ [?cl])"
    using Cons.prems by (simp add: cloneDeep_def)
  have "i + 1 + int (length xs) \<le> c" using Cons.prems by simp
  from Cons.IH[OF this ch notin] show ?case
    using i by (simp add: Slide_def)
qed

lemma children_tail:
  "c \<le> i \<Longrightarrow>
   list_children (forEach_from (clone_slide c len first) xs i st) =
     list_children st @ map sc_slide (clone_handles c len xs i)"
proof (induction xs arbitrary: i st)
  case Nil
  then show ?case by simp
next
  case (Cons S xs)
  have "c \<le> i + 1" using Cons.prems by simp
  from Cons.IH[OF this] show ?case
    using Cons.prems by (simp add: clone_slide_def register_def Let_def append_child_def Slide_def)
qed

lemma index_head:
  "i + int (length xs) \<le> c \<Longrightarrow>
   map sc_index (clone_handles c len xs i) = [i - c .. i - c + int (length xs) - 1]"
proof (induction xs arbitrary: i)
  case Nil
  then show ?case by simp
next
  case (Cons S xs)
  have "i + 1 + int (length xs) \<le> c" using Cons.prems by simp
  from Cons.IH[OF this] show ?case
    using Cons.prems by (subst upto_rec1) (auto simp: Slide_def algebra_simps)
qed

lemma index_tail:
  "c \<le> i \<Longrightarrow>
   map sc_index (clone_handles c len xs i) = [i - c + int len .. i - c + int len + int (length xs) - 1]"
proof (induction xs arbitrary: i)
  case Nil
  then show ?case by simp
next
  case (Cons S xs)
  have "c \<le> i + 1" using Cons.prems by simp
  from Cons.IH[OF this] show ?case
    using Cons.prems by (subst upto_rec1) (auto simp: Slide_def algebra_simps)
qed

lemma slideIndex_handles:
  "map sc_slideIndex (clone_handles c len xs i) = map sc_index xs"
  by (induction xs arbitrary: i) (auto simp: Slide_def)

lemma nth_clone_handles:
  "k < length xs \<Longrightarrow>
   clone_handles c len xs i ! k =
     Slide (i + int k - c + (if i + int k < c then 0 else int len)) (sc_index (xs ! k))
       (cloneDeep (sc_slide (xs ! k)) (i + int k))"
proof (induction xs arbitrary: i k)
  case Nil
  then show ?case by simp
next
  case (Cons S xs)
  show ?case
  proof (cases k)
    case 0
    then show ?thesis by simp
  next
    case (Suc k')
    then have "k' < length xs" using Cons.prems by simp
    from Cons.IH[OF this, of "i + 1"] show ?thesis
      using Suc by (simp add: add.assoc add.commute add.left_commute)
  qed
qed

lemma repeat_slides_unfold:
  "slides \<noteq> [] \<Longrightarrow> int (length slides) < count \<Longrightarrow>
   repeat_slides count slides = repeat_slides count (slides @ slides)"
  by (subst repeat_slides.simps) simp

lemma repeat_slides_stop:
  "slides = [] \<or> \<not> int (length slides) < count \<Longrightarrow> repeat_slides count slides = slides"
  by (subst repeat_slides.simps) auto

lemma nth_doubled_aux:
  "r < length xs + length xs \<Longrightarrow> (xs @ xs) ! r = xs ! (r mod length xs)"
  by (cases "r < length xs") (auto simp: nth_append le_mod_geq)

lemma mod_double: "(j mod (n + n)) mod n = j mod (n::nat)"
  by (rule mod_mod_cancel) simp

lemma nth_doubled:
  assumes "xs \<noteq> []"
  shows "(xs @ xs) ! (j mod length (xs @ xs)) = xs ! (j mod length xs)"
proof -
  have "j mod (length xs + length xs) < length xs + length xs"
    using assms by simp
  then have "(xs @ xs) ! (j mod (length xs + length xs)) =
      xs ! ((j mod (length xs + length xs)) mod length xs)"
    by (rule nth_doubled_aux)
  then show ?thesis
    by (simp only: mod_double length_append)
qed

lemma repeat_slides_nth:
  "j < length (repeat_slides c xs) \<Longrightarrow> repeat_slides c xs ! j = xs ! (j mod length xs)"
proof (induction c xs arbitrary: j rule: repeat_slides.induct)
  case (1 count slides)
  show ?case
  proof (cases "slides \<noteq> [] \<and> int (length slides) < count")
    case True
    then have eq: "repeat_slides count slides = repeat_slides count (slides @ slides)"
      by (intro repeat_slides_unfold) auto
    have jlt: "j < length (repeat_slides count (slides @ slides))"
      using "1.prems" by (subst (asm) eq)
    have "repeat_slides count (slides @ slides) ! j = (slides @ slides) ! (j mod length (slides @ slides))"
      using "1.IH"[OF True jlt] .
    also have "\<dots> = slides ! (j mod length slides)"
      using True by (intro nth_doubled) simp
    finally show ?thesis by (subst eq)
  next
    case False
    then have "repeat_slides count slides = slides"
      by (intro repeat_slides_stop) auto
    then show ?thesis using "1.prems" by simp
  qed
qed

lemma repeat_slides_dvd: "length xs dvd length (repeat_slides c xs)"
proof (induction c xs rule: repeat_slides.induct)
  case (1 count slides)
  show ?case
  proof (cases "slides \<noteq> [] \<and> int (length slides) < count")
    case True
    then have eq: "repeat_slides count slides = repeat_slides count (slides @ slides)"
      by (intro repeat_slides_unfold) auto
    have "length (slides @ slides) dvd length (repeat_slides count (slides @ slides))"
      using "1.IH"[OF True] .
    moreover have "length slides dvd length (slides @ slides)" by simp
    ultimately have "length slides dvd length (repeat_slides count (slides @ slides))"
      using dvd_trans by blast
    then show ?thesis by (subst eq)
  next
    case False
    then have "repeat_slides count slides = slides"
      by (intro repeat_slides_stop) auto
    then show ?thesis by simp
  qed
qed

lemma nth_real_slides: "i < n \<Longrightarrow> real_slides n ! i = Slide (int i) (- 1) (Original i)"
  by (simp add: real_slides_def)

lemma length_real_slides: "length (real_slides n) = n"
  by (simp add: real_slides_def)

lemma js_slice_last:
  assumes "0 < N" "N \<le> int (length xs)"
  shows "js_slice xs (- N) None = drop (length xs - nat N) xs"
proof -
  have "nat (int (length xs) - N) = length xs - nat N" using assms by linarith
  moreover have "nat (int (length xs) - (int (length xs) - N)) = nat N" by simp
  moreover have "take (nat N) (drop (length xs - nat N) xs) = drop (length xs - nat N) xs"
    using assms by (intro take_all) simp
  ultimately show ?thesis
    using assms by (simp add: js_slice_def Let_def max_def)
qed

lemma js_slice_first:
  assumes "0 < N" "N \<le> int (length xs)"
  shows "js_slice xs 0 (Some N) = take (nat N) xs"
  using assms by (simp add: js_slice_def Let_def min_def)

lemma clone_source:
  assumes n: "0 < n" and j: "j < length (repeat_slides N (real_slides n))"
  shows "repeat_slides N (real_slides n) ! j = Slide (int (j mod n)) (- 1) (Original (j mod n))"
proof -
  have "repeat_slides N (real_slides n) ! j = real_slides n ! (j mod length (real_slides n))"
    using j by (rule repeat_slides_nth)
  also have "\<dots> = Slide (int (j mod n)) (- 1) (Original (j mod n))"
    using n by (simp add: length_real_slides nth_real_slides)
  finally show ?thesis .
qed

lemma head_mod:
  assumes "n dvd L" "nat N \<le> L" "0 < N"
  shows "int ((L - nat N + k) mod n) = (int k - N) mod int n"
proof -
  have "int (L - nat N + k) = int L + (int k - N)"
    using assms by (simp add: of_nat_diff)
  then have "int ((L - nat N + k) mod n) = (int L + (int k - N)) mod int n"
    by (simp only: zmod_int)
  also have "\<dots> = (int k - N) mod int n"
  proof -
    have "int n dvd int L" using assms(1) by simp
    then show ?thesis by (metis mod_add_self1 dvd_def mod_mult_self4 mult.commute)
  qed
  finally show ?thesis .
qed

lemma tail_mod: "int (k mod n) = (int k - N + N + int n) mod int n"
  by (simp add: zmod_int)

lemma generate_unfold:
  assumes N: "0 < N" and n: "0 < n" and reg: "registry st = real_slides n"
  shows "generate N st =
     forEach_from (clone_slide N n (Original 0))
       (take (nat N) (repeat_slides N (real_slides n)))
       N
       (forEach_from (clone_slide N n (Original 0))
          (drop (length (repeat_slides N (real_slides n)) - nat N) (repeat_slides N (real_slides n)))
          0 st)"
proof -
  let ?s = "repeat_slides N (real_slides n)"
  have ne: "real_slides n \<noteq> []" using n by (simp add: real_slides_def)
  have LN: "N \<le> int (length ?s)" using ne by (rule repeat_slides_length)
  have first: "sc_slide (hd ?s) = Original 0"
    using n by (simp add: repeat_slides_hd real_slides_def hd_map Slide_def hd_upt)
  have len: "int (length (drop (length ?s - nat N) ?s)) = N"
    using N LN by simp
  have "generate N st =
      forEach_from (clone_slide N n (Original 0))
        (drop (length ?s - nat N) ?s @ take (nat N) ?s) 0 st"
    using ne N LN first
    by (simp add: generate_def Let_def reg length_real_slides js_slice_last js_slice_first)
  also have "\<dots> = forEach_from (clone_slide N n (Original 0)) (take (nat N) ?s)
       (0 + int (length (drop (length ?s - nat N) ?s)))
       (forEach_from (clone_slide N n (Original 0)) (drop (length ?s - nat N) ?s) 0 st)"
    by (rule forEach_from_append)
  finally show ?thesis using len by simp
qed

text \<open>
  Claim C1. In a loop slider with \<open>n > 0\<close> real slides and a required clone count
  \<open>N > 0\<close>, \<^verbatim>\<open>generate\<close> registers exactly \<open>N\<close> head clones with placement
  indices \<open>-N, \<dots>, -1\<close>, inserted in front of the first real slide, and exactly \<open>N\<close>
  tail clones with placement indices \<open>n, \<dots>, n + N - 1\<close>, appended after the last one.
  Every clone is a copy of a real slide: its \<^verbatim>\<open>slideIndex\<close> is a real index, namely
  its placement index modulo \<open>n\<close>, also when \<open>n < N\<close> and the sequence is repeated.
\<close>

theorem generate_clones:
  assumes N: "0 < N" and n: "0 < n"
    and reg: "registry st = real_slides n"
    and dom: "list_children st = map Original [0..<n]"
  shows "\<exists>heads tails.
      registry (generate N st) = real_slides n @ heads @ tails
    \<and> length heads = nat N \<and> length tails = nat N
    \<and> map sc_index heads = [- N .. - 1]
    \<and> map sc_index tails = [int n .. int n + N - 1]
    \<and> (\<forall>c \<in> set (heads @ tails).
          isClone c \<and> 0 \<le> sc_slideIndex c \<and> sc_slideIndex c < int n
        \<and> sc_slideIndex c = sc_index c mod int n
        \<and> (\<exists>k. sc_slide c = Cloned (Original (nat (sc_slideIndex c))) k))
    \<and> list_children (generate N st) = map sc_slide heads @ map Original [0..<n] @ map sc_slide tails
    \<and> clones (generate N st) = clones st @ map sc_slide heads @ map sc_slide tails"
proof -
  define s where "s = repeat_slides N (real_slides n)"
  define L where "L = length s"
  define hb where "hb = drop (L - nat N) s"
  define tb where "tb = take (nat N) s"
  define heads where "heads = clone_handles N n hb 0"
  define tails where "tails = clone_handles N n tb N"
  define mid where "mid = forEach_from (clone_slide N n (Original 0)) hb 0 st"
  have ne: "real_slides n \<noteq> []" using n by (simp add: real_slides_def)
  have LN: "N \<le> int L" unfolding L_def s_def using ne by (rule repeat_slides_length)
  have NL: "nat N \<le> L" using LN by linarith
  have dvd: "n dvd L"
    using repeat_slides_dvd[of "real_slides n" N] by (simp add: L_def s_def length_real_slides)
  have len_hb: "length hb = nat N" using NL by (simp add: hb_def L_def)
  have len_tb: "length tb = nat N" using NL by (simp add: tb_def L_def)
  have gen: "generate N st = forEach_from (clone_slide N n (Original 0)) tb N mid"
    unfolding mid_def tb_def hb_def L_def s_def using N n reg by (rule generate_unfold)
  have r: "registry (generate N st) = real_slides n @ heads @ tails"
    by (simp add: gen mid_def registry_forEach reg heads_def tails_def)
  have lh: "length heads = nat N" by (simp add: heads_def length_clone_handles len_hb)
  have lt: "length tails = nat N" by (simp add: tails_def length_clone_handles len_tb)
  have ih: "map sc_index heads = [- N .. - 1]"
    using index_head[of 0 hb N n] N by (simp add: heads_def len_hb)
  have it: "map sc_index tails = [int n .. int n + N - 1]"
    using index_tail[of N N n tb] N by (simp add: tails_def len_tb)
  have cl: "clones (generate N st) = clones st @ map sc_slide heads @ map sc_slide tails"
    by (simp add: gen mid_def clones_forEach heads_def tails_def)
  have upt: "[0..<n] = 0 # [Suc 0..<n]" using n by (simp add: upt_conv_Cons)
  have "list_children st = [] @ Original 0 # map Original [Suc 0..<n]"
    using dom by (subst (asm) upt) simp
  then have "list_children mid = [] @ map sc_slide heads @ Original 0 # map Original [Suc 0..<n]"
    unfolding mid_def heads_def using N by (intro children_head) (simp_all add: len_hb)
  then have chm: "list_children mid = map sc_slide heads @ map Original [0..<n]"
    by (subst upt) simp
  have ch: "list_children (generate N st) = map sc_slide heads @ map Original [0..<n] @ map sc_slide tails"
    using children_tail[of N N n "Original 0" tb mid] chm by (simp add: gen tails_def)
  have per: "isClone c \<and> 0 \<le> sc_slideIndex c \<and> sc_slideIndex c < int n
        \<and> sc_slideIndex c = sc_index c mod int n
        \<and> (\<exists>k. sc_slide c = Cloned (Original (nat (sc_slideIndex c))) k)"
    if c: "c \<in> set (heads @ tails)" for c
  proof -
    from c consider "c \<in> set heads" | "c \<in> set tails" by auto
    then show ?thesis
    proof cases
      case 1
      then obtain k where k: "k < nat N" and ck: "c = heads ! k"
        using lh by (metis in_set_conv_nth)
      have kh: "k < length hb" using k len_hb by simp
      have j: "L - nat N + k < length s" using k NL by (simp add: L_def)
      have src: "hb ! k = Slide (int ((L - nat N + k) mod n)) (- 1) (Original ((L - nat N + k) mod n))"
        using clone_source[OF n, of "L - nat N + k" N] j NL
        by (simp add: hb_def s_def L_def)
      have kN: "int k < N" using k by linarith
      have c_eq: "c = Slide (int k - N) (int ((L - nat N + k) mod n))
            (cloneDeep (Original ((L - nat N + k) mod n)) (int k))"
        using nth_clone_handles[OF kh, of N n 0] kN src
        by (simp add: ck heads_def Slide_def)
      have m: "int ((L - nat N + k) mod n) = (int k - N) mod int n"
        using dvd NL N by (rule head_mod)
      have lt: "(L - nat N + k) mod n < n" using n by simp
      show ?thesis
        using m lt by (simp add: c_eq Slide_def isClone_def cloneDeep_def)
    next
      case 2
      then obtain k where k: "k < nat N" and ck: "c = tails ! k"
        using lt by (metis in_set_conv_nth)
      have kt: "k < length tb" using k len_tb by simp
      have j: "k < length s" using k NL by (simp add: L_def)
      have src: "tb ! k = Slide (int (k mod n)) (- 1) (Original (k mod n))"
        using clone_source[OF n, of k N] j k
        by (simp add: tb_def s_def)
      have c_eq: "c = Slide (int k + int n) (int (k mod n))
            (cloneDeep (Original (k mod n)) (N + int k))"
        using nth_clone_handles[OF kt, of N n N] src
        by (simp add: ck tails_def Slide_def)
      have m: "int (k mod n) = (int k + int n) mod int n"
        by (simp add: zmod_int)
      have lt: "k mod n < n" using n by simp
      show ?thesis
        using m lt by (simp add: c_eq Slide_def isClone_def cloneDeep_def)
    qed
  qed
  show ?thesis
    using r lh lt ih it per ch cl by blast
qed

theorem generate_clones_witness:
  "(0::int) < 5 \<and> (0::nat) < 2 \<and> registry two_slides = real_slides 2
   \<and> list_children two_slides = map Original [0..<2]
   \<and> (\<exists>heads tails.
        registry (generate 5 two_slides) = real_slides 2 @ heads @ tails
      \<and> length heads = 5 \<and> length tails = 5
      \<and> map sc_index heads = [- 5, - 4, - 3, - 2, - 1]
      \<and> map sc_index tails = [2, 3, 4, 5, 6])"
proof -
  have 1: "(0::int) < 5" and 2: "(0::nat) < 2" by simp_all
  have 3: "registry two_slides = real_slides 2" by (simp add: two_slides_def)
  have 4: "list_children two_slides = map Original [0..<2]" by (simp add: two_slides_def)
  have u1: "[- 5 .. - 1] = [- 5, - 4, - 3, - 2, - 1::int]" by (simp add: upto.simps)
  have u2: "[int 2 .. int 2 + 5 - 1] = [2, 3, 4, 5, 6::int]" by (simp add: upto.simps)
  from generate_clones[OF 1 2 3 4] obtain heads tails where
    r: "registry (generate 5 two_slides) = real_slides 2 @ heads @ tails" and
    lh: "length heads = nat 5" and lt: "length tails = nat 5" and
    ih: "map sc_index heads = [- 5 .. - 1]" and
    it: "map sc_index tails = [int 2 .. int 2 + 5 - 1]"
    by blast
  have "\<exists>heads tails.
        registry (generate 5 two_slides) = real_slides 2 @ heads @ tails
      \<and> length heads = 5 \<and> length tails = 5
      \<and> map sc_index heads = [- 5, - 4, - 3, - 2, - 1]
      \<and> map sc_index tails = [2, 3, 4, 5, 6]"
  proof (intro exI conjI)
    show "registry (generate 5 two_slides) = real_slides 2 @ heads @ tails" by (fact r)
    show "length heads = 5" using lh by simp
    show "length tails = 5" using lt by simp
    show "map sc_index heads = [- 5, - 4, - 3, - 2, - 1]" using ih unfolding u1 .
    show "map sc_index tails = [2, 3, 4, 5, 6]" using it unfolding u2 .
  qed
  with 1 2 3 4 show ?thesis by blast
qed

text \<open>The boundary case of the specification, two real slides and five clones, computed.\<close>

lemma generate_two_slides_five:
  "map (\<lambda>S. (sc_index S, sc_slideIndex S)) (registry (generate 5 two_slides)) =
     [(0, - 1), (1, - 1), (- 5, 1), (- 4, 0), (- 3, 1), (- 2, 0), (- 1, 1),
      (2, 0), (3, 1), (4, 0), (5, 1), (6, 0)]"
  by code_simp

text \<open>
  Claim C2. When the type option is not \<^verbatim>\<open>'loop'\<close>, the computed clone count is 0,
  \<^verbatim>\<open>init\<close> generates and registers nothing, and a registry that held the \<open>n\<close> real
  slides holds exactly those afterwards.
\<close>

theorem non_loop_no_clones:
  assumes "opt_type opts \<noteq> LOOP" and "registry st = real_slides n"
  shows "computeCloneCount opts m = 0
       \<and> init opts m st = st\<lparr>cloneCount := 0\<rparr>
       \<and> registry (init opts m st) = real_slides n
       \<and> clones (init opts m st) = clones st
       \<and> list_children (init opts m st) = list_children st
       \<and> getLength False (registry (init opts m st)) = n
       \<and> getLength True (registry (init opts m st)) = n"
proof -
  have c: "computeCloneCount opts m = 0" using assms(1) by (simp add: computeCloneCount_def)
  then have i: "init opts m st = st\<lparr>cloneCount := 0\<rparr>" by (simp add: init_def Let_def)
  have "filter (\<lambda>S. \<not> isClone S) (real_slides n) = real_slides n"
    by (simp add: real_slides_def isClone_def Slide_def filter_map o_def)
  then show ?thesis using c i assms(2) by (simp add: getLength_def length_real_slides)
qed

theorem non_loop_no_clones_witness:
  "opt_type slide_opts \<noteq> LOOP \<and> registry two_slides = real_slides 2
   \<and> computeCloneCount slide_opts wide_measures = 0
   \<and> registry (init slide_opts wide_measures two_slides) = real_slides 2
   \<and> getLength True (registry (init slide_opts wide_measures two_slides)) = 2"
proof -
  have 1: "opt_type slide_opts \<noteq> LOOP" by (simp add: slide_opts_def LOOP_def)
  have 2: "registry two_slides = real_slides 2" by (simp add: two_slides_def)
  from non_loop_no_clones[OF 1 2, of wide_measures] 1 2 show ?thesis by blast
qed




end
